theory Spec2Isabelle
  imports Complex_Main
begin

section \<open>The analysis flow skeleton\<close>

text \<open>
  The repository's source is \<^verbatim>\<open>src/analysis/bytewax/analysis_flow.py\<close>:
  \<^verbatim>\<open>
  def main():
      influx_url = os.getenv("INFLUX_URL")
      influx_org = os.getenv("INFLUX_ORG")
      influx_bucket = os.getenv("INFLUX_BUCKET")
      print("okex-buddy bytewax analysis flow (M1 skeleton)")
      print("Influx:", influx_url, influx_org, influx_bucket)

  if __name__ == "__main__":
      main()
  \<close>
  Its comments place the queue source and the two detectors in later milestones.
\<close>

subsection \<open>Python values and the process state\<close>

text \<open>
  A Python \<^verbatim>\<open>str\<close> is a sequence of Unicode code points. \<open>ustr\<close> gives the \<^verbatim>\<open>str\<close> of a
  literal of the source.
\<close>

type_synonym unicode = "nat list"

definition ustr :: "string \<Rightarrow> unicode" where
  "ustr s = map of_char s"

text \<open>The values \<^verbatim>\<open>main\<close> handles: \<^verbatim>\<open>None\<close> and \<^verbatim>\<open>str\<close>.\<close>

datatype pyval = PyNone | PyStr unicode

text \<open>
  The exception \<^verbatim>\<open>print\<close> raises when standard output cannot encode a text; it carries
  that text.
\<close>

datatype py_exception = UnicodeEncodeError unicode

text \<open>
  The environment as \<^verbatim>\<open>os.environ\<close> presents it: from the names of the variables (the
  code and the interpreter look up ASCII names) to their values as \<^verbatim>\<open>str\<close>.
\<close>

type_synonym environ = "string \<rightharpoonup> unicode"

text \<open>
  The encoder of \<^verbatim>\<open>sys.stdout\<close>: the bytes of a text, or nothing when the encoder raises
  \<^verbatim>\<open>UnicodeEncodeError\<close> for it. Each written text is encoded on its own.
\<close>

type_synonym encoder = "unicode \<Rightarrow> string option"

text \<open>
  The process as \<^verbatim>\<open>main\<close> sees and changes it: the environment variables, the
  names passed to \<^verbatim>\<open>os.getenv\<close> so far (in call order), the encoder of standard output,
  and the bytes written to standard output so far. The target of standard output is
  taken to accept every byte.
\<close>

record process =
  environ :: environ
  getenv_calls :: "string list"
  stdout_encoder :: encoder
  stdout :: string

text \<open>
  \<^verbatim>\<open>os.getenv(key)\<close> is \<^verbatim>\<open>os.environ.get(key, None)\<close>: the variable's value,
  \<^verbatim>\<open>None\<close> when it is not set. It raises nothing for a missing variable.
\<close>

definition environ_get :: "environ \<Rightarrow> string \<Rightarrow> pyval" where
  "environ_get env key = (case env key of None \<Rightarrow> PyNone | Some v \<Rightarrow> PyStr v)"

definition os_getenv :: "string \<Rightarrow> process \<Rightarrow> pyval \<times> process" where
  "os_getenv key p =
     (environ_get (environ p) key, p\<lparr>getenv_calls := getenv_calls p @ [key]\<rparr>)"

text \<open>\<^verbatim>\<open>str(x)\<close>, as \<^verbatim>\<open>print\<close> applies it to each argument.\<close>

fun py_str :: "pyval \<Rightarrow> unicode" where
  "py_str PyNone = ustr ''None''"
| "py_str (PyStr s) = s"

text \<open>
  \<^verbatim>\<open>sys.stdout.write(t)\<close>: the whole text is encoded first. If the encoder refuses it,
  \<^verbatim>\<open>UnicodeEncodeError\<close> is raised and nothing of the text is written; otherwise its bytes
  follow the bytes written before.
\<close>

definition sys_stdout_write :: "unicode \<Rightarrow> process \<Rightarrow> (py_exception + unit) \<times> process" where
  "sys_stdout_write t p =
     (case stdout_encoder p t of
        None \<Rightarrow> (Inl (UnicodeEncodeError t), p)
      | Some bytes \<Rightarrow> (Inr (), p\<lparr>stdout := stdout p @ bytes\<rparr>))"

text \<open>Writing texts one after the other; the first exception ends the writing.\<close>

fun write_each :: "unicode list \<Rightarrow> process \<Rightarrow> (py_exception + unit) \<times> process" where
  "write_each [] p = (Inr (), p)"
| "write_each (t # ts) p =
     (case sys_stdout_write t p of
        (Inl e, p') \<Rightarrow> (Inl e, p')
      | (Inr _, p') \<Rightarrow> write_each ts p')"

text \<open>
  \<^verbatim>\<open>print(a, b, ...)\<close> writes the text of each argument with a write of its own, a
  write of the separator (one space) before every argument but the first, and a last
  write of the newline. So an argument that cannot be encoded leaves the texts before
  it, and the separator before it, on standard output.
\<close>

fun print_texts :: "unicode \<Rightarrow> unicode list \<Rightarrow> unicode list" where
  "print_texts sep [] = []"
| "print_texts sep [x] = [x]"
| "print_texts sep (x # y # ys) = x # sep # print_texts sep (y # ys)"

definition py_print :: "pyval list \<Rightarrow> process \<Rightarrow> (py_exception + unit) \<times> process" where
  "py_print args p =
     write_each (print_texts (ustr '' '') (map py_str args) @ [ustr [CHR 0x0A]]) p"

subsection \<open>main and the module's entry point\<close>

text \<open>
  \<^verbatim>\<open>main\<close> has no \<^verbatim>\<open>try\<close>: an exception of the first \<^verbatim>\<open>print\<close> skips the second,
  and an exception of either leaves \<^verbatim>\<open>main\<close>.
\<close>

definition main :: "process \<Rightarrow> (py_exception + pyval) \<times> process" where
  "main p0 =
     (let (influx_url, p1) = os_getenv ''INFLUX_URL'' p0;
          (influx_org, p2) = os_getenv ''INFLUX_ORG'' p1;
          (influx_bucket, p3) = os_getenv ''INFLUX_BUCKET'' p2
      in case py_print [PyStr (ustr ''okex-buddy bytewax analysis flow (M1 skeleton)'')] p3 of
           (Inl e, p4) \<Rightarrow> (Inl e, p4)
         | (Inr _, p4) \<Rightarrow>
             (case py_print [PyStr (ustr ''Influx:''), influx_url, influx_org, influx_bucket] p4 of
                (Inl e, p5) \<Rightarrow> (Inl e, p5)
              | (Inr _, p5) \<Rightarrow> (Inr PyNone, p5)))"

text \<open>
  The texts the two \<^verbatim>\<open>print\<close> calls of \<^verbatim>\<open>main\<close> pass to \<^verbatim>\<open>sys.stdout.write\<close>, in
  order, in an environment.
\<close>

definition printed_texts :: "environ \<Rightarrow> unicode list" where
  "printed_texts env =
     [ustr ''okex-buddy bytewax analysis flow (M1 skeleton)'', ustr [CHR 0x0A],
      ustr ''Influx:'', ustr '' '', py_str (environ_get env ''INFLUX_URL''),
      ustr '' '', py_str (environ_get env ''INFLUX_ORG''),
      ustr '' '', py_str (environ_get env ''INFLUX_BUCKET''), ustr [CHR 0x0A]]"

subsection \<open>The encoder of standard output\<close>

text \<open>
  The ASCII and UTF-8 encodings of one code point. UTF-8 has no encoding for the
  surrogates \<^verbatim>\<open>U+D800\<close> to \<^verbatim>\<open>U+DFFF\<close>, which \<^verbatim>\<open>os.environ\<close> uses for the bytes of a
  value that it could not decode.
\<close>

definition ascii_char :: "nat \<Rightarrow> string option" where
  "ascii_char c = (if c < 128 then Some [char_of c] else None)"

definition utf8_char :: "nat \<Rightarrow> string option" where
  "utf8_char c =
     (if c < 0x80 then Some [char_of c]
      else if c < 0x800 then Some [char_of (0xC0 + c div 64), char_of (0x80 + c mod 64)]
      else if 0xD800 \<le> c \<and> c < 0xE000 then None
      else if c < 0x10000 then
        Some [char_of (0xE0 + c div 4096), char_of (0x80 + c div 64 mod 64),
              char_of (0x80 + c mod 64)]
      else if c < 0x110000 then
        Some [char_of (0xF0 + c div 262144), char_of (0x80 + c div 4096 mod 64),
              char_of (0x80 + c div 64 mod 64), char_of (0x80 + c mod 64)]
      else None)"

text \<open>
  The error handlers \<^verbatim>\<open>strict\<close> and \<^verbatim>\<open>replace\<close>: for a code point the encoding lacks,
  \<^verbatim>\<open>strict\<close> raises and \<^verbatim>\<open>replace\<close> writes a question mark.
\<close>

datatype error_handler = Strict | Replace

fun encode_with :: "(nat \<Rightarrow> string option) \<Rightarrow> error_handler \<Rightarrow> encoder" where
  "encode_with enc h [] = Some []"
| "encode_with enc h (c # cs) =
     (case enc c of
        Some bytes \<Rightarrow> map_option ((@) bytes) (encode_with enc h cs)
      | None \<Rightarrow>
          (case h of
             Strict \<Rightarrow> None
           | Replace \<Rightarrow> map_option ((@) ''?'') (encode_with enc h cs)))"

text \<open>
  The interpreter (CPython on a POSIX platform) sets up \<^verbatim>\<open>sys.stdout\<close> from the
  environment before the script runs. What it does is the parameter \<open>platform\<close>, which
  the source does not decide: \<open>platform env\<close> is nothing when the interpreter does not
  get to run the script in the environment (an unknown encoding name, a broken
  \<^verbatim>\<open>PYTHONHOME\<close>, a program loader told to do something else), and otherwise the
  encoder that the locale and the further settings give. Over that choice,
  the variable \<^verbatim>\<open>PYTHONIOENCODING\<close>, read as \<^verbatim>\<open>encoding:errors\<close>, decides both the
  encoding and the error handler of standard output; three of its values are modelled.
\<close>

definition sys_stdout :: "(environ \<Rightarrow> encoder option) \<Rightarrow> environ \<Rightarrow> encoder option" where
  "sys_stdout platform env =
     (case platform env of
        None \<Rightarrow> None
      | Some local_encoder \<Rightarrow>
          Some (if env ''PYTHONIOENCODING'' = Some (ustr ''ascii:strict'')
                  then encode_with ascii_char Strict
                else if env ''PYTHONIOENCODING'' = Some (ustr ''ascii:replace'')
                  then encode_with ascii_char Replace
                else if env ''PYTHONIOENCODING'' = Some (ustr ''utf-8:strict'')
                  then encode_with utf8_char Strict
                else local_encoder))"

text \<open>
  One platform, for concrete runs: the interpreter starts, and where
  \<^verbatim>\<open>PYTHONIOENCODING\<close> does not decide, standard output encodes as UTF-8 with strict
  errors.
\<close>

definition utf8_locale :: "environ \<Rightarrow> encoder option" where
  "utf8_locale env = Some (encode_with utf8_char Strict)"

definition start :: "environ \<Rightarrow> encoder \<Rightarrow> process" where
  "start env enc = \<lparr>environ = env, getenv_calls = [], stdout_encoder = enc, stdout = []\<rparr>"

text \<open>
  Running the file as a script, with no terminal to turn to afterwards: the interpreter
  sets up standard output, calls \<^verbatim>\<open>main()\<close> and ends. The result is the exit status and
  the bytes on standard output: status 0 when \<^verbatim>\<open>main\<close> returns, 1 when an exception
  leaves it (what was written before stays written). There is no result when the
  interpreter does not get to run the script.
\<close>

definition run_module :: "(environ \<Rightarrow> encoder option) \<Rightarrow> environ \<Rightarrow> (int \<times> string) option" where
  "run_module platform env =
     (case sys_stdout platform env of
        None \<Rightarrow> None
      | Some enc \<Rightarrow>
          Some (case main (start env enc) of
                  (Inr _, p) \<Rightarrow> (0, stdout p)
                | (Inl e, p) \<Rightarrow> (1, stdout p)))"

text \<open>
  The configuration options the specification lists as recognized, and the option
  each variable name read by the code stands for.
\<close>

datatype config_option =
    StoreUrl | StoreOrg | StoreBucket
  | QueueTarget | QueueKey
  | AnomalyRatio | ShrinkageSlopeThreshold | ShrinkageMonotonicityRatio | ShrinkageCooldown
  | RetentionHorizon
  | BatchSize | FlushInterval

definition spec_recognized_options :: "config_option list" where
  "spec_recognized_options =
     [StoreUrl, StoreOrg, StoreBucket, QueueTarget, QueueKey,
      AnomalyRatio, ShrinkageSlopeThreshold, ShrinkageMonotonicityRatio, ShrinkageCooldown,
      RetentionHorizon, BatchSize, FlushInterval]"

definition option_of_variable :: "string \<Rightarrow> config_option option" where
  "option_of_variable name =
     (if name = ''INFLUX_URL'' then Some StoreUrl
      else if name = ''INFLUX_ORG'' then Some StoreOrg
      else if name = ''INFLUX_BUCKET'' then Some StoreBucket
      else None)"

definition options_read :: "process \<Rightarrow> config_option list" where
  "options_read p = List.map_filter option_of_variable (getenv_calls p)"

section \<open>The symbol window of the specification\<close>

text \<open>
  The source holds no window, detector or emitter: its comments leave them to later
  milestones. The definitions of this section follow the specification's data model
  (section 3) and the contract of \<^verbatim>\<open>SymbolWindow\<close> (section 4.2), so that two of its
  testable properties can be checked against its own contract.
\<close>

text \<open>
  Modelled from the spec: \<^verbatim>\<open>DepthSnapshot\<close>, which the source does not declare. One
  observation of an order book: the symbol, the event time assigned by the source of the
  data, the aggregate quantity on each side, and the per-symbol sequence counter.
\<close>

record depth_snapshot =
  symbol :: string
  timestamp :: int
  bid_depth :: rat
  ask_depth :: rat
  sequence :: int

text \<open>
  Modelled from the spec: \<^verbatim>\<open>SymbolWindow\<close>, which the source does not declare. The
  per-symbol state: the key, the stored snapshots (oldest first), the last sequence
  number taken, and the two counters of rejected snapshots. A fresh window has not seen
  a sequence number yet.
\<close>

record symbol_window =
  window_symbol :: string
  snapshots :: "depth_snapshot list"
  last_sequence :: "int option"
  sequence_gaps :: nat
  duplicate_snapshots :: nat

text \<open>
  Modelled from the spec: the freshly created window, missing from the source. It holds
  zero snapshots.
\<close>

definition new_window :: "string \<Rightarrow> symbol_window" where
  "new_window name =
     \<lparr>window_symbol = name, snapshots = [], last_sequence = None,
      sequence_gaps = 0, duplicate_snapshots = 0\<rparr>"

text \<open>
  Modelled from the spec: what \<^verbatim>\<open>SymbolWindow.insert\<close>, missing from the source, does
  with a snapshot: it appends it, or rejects it and counts it as a sequence gap or as a
  duplicate.
\<close>

datatype insert_outcome = Appended | SequenceGap | DuplicateSnapshot

text \<open>
  Modelled from the spec: the test of \<^verbatim>\<open>SymbolWindow.insert\<close>, missing from the source.
  A snapshot is appended if its sequence is greater than \<^verbatim>\<open>last_sequence\<close> and its
  timestamp is not earlier than the newest stored entry's.
\<close>

definition in_order :: "symbol_window \<Rightarrow> depth_snapshot \<Rightarrow> bool" where
  "in_order w s =
     ((case last_sequence w of None \<Rightarrow> True | Some q \<Rightarrow> q < sequence s)
      \<and> (case snapshots w of [] \<Rightarrow> True
          | _ # _ \<Rightarrow> timestamp (last (snapshots w)) \<le> timestamp s))"

text \<open>
  Modelled from the spec: the metric a rejected snapshot is counted under, missing from
  the source. A snapshot that repeats the last sequence number is a duplicate; any other
  rejected snapshot is out of order.
\<close>

definition classify :: "symbol_window \<Rightarrow> depth_snapshot \<Rightarrow> insert_outcome" where
  "classify w s =
     (if in_order w s then Appended
      else if last_sequence w = Some (sequence s) then DuplicateSnapshot
      else SequenceGap)"

text \<open>
  Modelled from the spec: the eviction of \<^verbatim>\<open>SymbolWindow.insert\<close>, missing from the
  source. Entries older than \<^verbatim>\<open>now - retention_horizon\<close> are evicted from the front.
\<close>

definition evict :: "int \<Rightarrow> int \<Rightarrow> depth_snapshot list \<Rightarrow> depth_snapshot list" where
  "evict retention_horizon now xs = dropWhile (\<lambda>x. timestamp x < now - retention_horizon) xs"

text \<open>
  Modelled from the spec: \<^verbatim>\<open>SymbolWindow.insert\<close>, missing from the source. An accepted
  snapshot is appended and becomes the last sequence number, then the window is evicted
  with \<^verbatim>\<open>now\<close> the timestamp just inserted; a rejected one changes a counter only.
\<close>

definition insert_snapshot :: "int \<Rightarrow> depth_snapshot \<Rightarrow> symbol_window \<Rightarrow> symbol_window" where
  "insert_snapshot retention_horizon s w =
     (case classify w s of
        Appended \<Rightarrow>
          w\<lparr>snapshots := evict retention_horizon (timestamp s) (snapshots w @ [s]),
            last_sequence := Some (sequence s)\<rparr>
      | SequenceGap \<Rightarrow> w\<lparr>sequence_gaps := sequence_gaps w + 1\<rparr>
      | DuplicateSnapshot \<Rightarrow> w\<lparr>duplicate_snapshots := duplicate_snapshots w + 1\<rparr>)"

text \<open>
  Modelled from the spec: a sequence of snapshots delivered to one window, each by
  \<^verbatim>\<open>SymbolWindow.insert\<close> (missing from the source), in the order of the list.
\<close>

fun inserts :: "int \<Rightarrow> depth_snapshot list \<Rightarrow> symbol_window \<Rightarrow> symbol_window" where
  "inserts h [] w = w"
| "inserts h (s # ss) w = inserts h ss (insert_snapshot h s w)"

text \<open>
  Modelled from the spec: the snapshots that \<^verbatim>\<open>SymbolWindow.insert\<close> (missing from the
  source) appended during such a delivery, in order; the last of them carries the latest
  inserted timestamp.
\<close>

fun accepted :: "int \<Rightarrow> depth_snapshot list \<Rightarrow> symbol_window \<Rightarrow> depth_snapshot list" where
  "accepted h [] w = []"
| "accepted h (s # ss) w =
     (if in_order w s then s # accepted h ss (insert_snapshot h s w)
      else accepted h ss (insert_snapshot h s w))"

text \<open>
  Modelled from the spec: the filter of the first testable property, which the source
  does not compute. Read from the input alone: after a kept snapshot \<open>p\<close>, a snapshot is
  kept when its sequence is strictly greater than, and its timestamp not earlier than,
  those of \<open>p\<close>.
\<close>

fun filter_after :: "depth_snapshot \<Rightarrow> depth_snapshot list \<Rightarrow> depth_snapshot list" where
  "filter_after p [] = []"
| "filter_after p (s # ss) =
     (if sequence p < sequence s \<and> timestamp p \<le> timestamp s then s # filter_after s ss
      else filter_after p ss)"

text \<open>
  Modelled from the spec: the filtered subsequence of a whole input, which the source
  does not compute. The first snapshot is kept, as a fresh window has nothing to compare
  it with.
\<close>

fun filtered_subsequence :: "depth_snapshot list \<Rightarrow> depth_snapshot list" where
  "filtered_subsequence [] = []"
| "filtered_subsequence (s # ss) = s # filter_after s ss"

text \<open>
  Modelled from the spec: the part of a time-ordered sequence that the retention policy
  (missing from the source) keeps, the entries not older than the horizon relative to
  the sequence's last timestamp.
\<close>

definition retained :: "int \<Rightarrow> depth_snapshot list \<Rightarrow> depth_snapshot list" where
  "retained h ys =
     (case ys of [] \<Rightarrow> []
      | _ # _ \<Rightarrow> dropWhile (\<lambda>x. timestamp x < timestamp (last ys) - h) ys)"

text \<open>A snapshot of one symbol with equal depth on both sides, for concrete runs.\<close>

definition example_snapshot :: "int \<Rightarrow> int \<Rightarrow> depth_snapshot" where
  "example_snapshot q t =
     \<lparr>symbol = ''BTC-USDT'', timestamp = t, bid_depth = 100, ask_depth = 100, sequence = q\<rparr>"

section \<open>Properties of main\<close>

lemma write_each_append:
  "write_each (xs @ ys) p =
     (case write_each xs p of (Inl e, p') \<Rightarrow> (Inl e, p') | (Inr _, p') \<Rightarrow> write_each ys p')"
  by (induction xs arbitrary: p) (auto split: prod.splits sum.splits)

lemma main_write_each:
  "main p =
     (case write_each (printed_texts (environ p))
             (p\<lparr>getenv_calls := getenv_calls p @ [''INFLUX_URL'', ''INFLUX_ORG'', ''INFLUX_BUCKET'']\<rparr>) of
        (Inl e, q) \<Rightarrow> (Inl e, q)
      | (Inr _, q) \<Rightarrow> (Inr PyNone, q))"
proof -
  let ?A = "[ustr ''okex-buddy bytewax analysis flow (M1 skeleton)'', ustr [CHR 0x0A]]"
  let ?B = "[ustr ''Influx:'', ustr '' '', py_str (environ_get (environ p) ''INFLUX_URL''),
      ustr '' '', py_str (environ_get (environ p) ''INFLUX_ORG''),
      ustr '' '', py_str (environ_get (environ p) ''INFLUX_BUCKET''), ustr [CHR 0x0A]]"
  let ?p3 = "p\<lparr>getenv_calls := getenv_calls p @ [''INFLUX_URL'', ''INFLUX_ORG'', ''INFLUX_BUCKET'']\<rparr>"
  have m: "main p =
     (case write_each ?A ?p3 of
        (Inl e, p4) \<Rightarrow> (Inl e, p4)
      | (Inr _, p4) \<Rightarrow>
          (case write_each ?B p4 of
             (Inl e, p5) \<Rightarrow> (Inl e, p5)
           | (Inr _, p5) \<Rightarrow> (Inr PyNone, p5)))"
    by (simp add: main_def os_getenv_def py_print_def del: write_each.simps
        split: prod.splits sum.splits)
  have t: "printed_texts (environ p) = ?A @ ?B"
    by (simp add: printed_texts_def)
  show ?thesis
    unfolding m t write_each_append
    by (simp del: write_each.simps split: prod.splits sum.splits)
qed

lemma write_each_frame:
  "write_each ts p = (r, q) \<Longrightarrow>
     environ q = environ p \<and> getenv_calls q = getenv_calls p \<and> stdout_encoder q = stdout_encoder p"
  by (induction ts arbitrary: p)
     (auto simp: sys_stdout_write_def split: prod.splits sum.splits option.splits)

lemma write_each_ok_iff:
  "fst (write_each ts p) = Inr () \<longleftrightarrow> list_all (\<lambda>t. stdout_encoder p t \<noteq> None) ts"
proof (induction ts arbitrary: p)
  case Nil then show ?case by simp
next
  case (Cons t ts)
  show ?case
  proof (cases "stdout_encoder p t")
    case None then show ?thesis by (simp add: sys_stdout_write_def)
  next
    case (Some bytes)
    then show ?thesis using Cons.IH [of "p\<lparr>stdout := stdout p @ bytes\<rparr>"]
      by (simp add: sys_stdout_write_def)
  qed
qed


lemma main_getenv_calls:
  "getenv_calls (snd (main p)) =
     getenv_calls p @ [''INFLUX_URL'', ''INFLUX_ORG'', ''INFLUX_BUCKET'']"
proof -
  let ?p3 = "p\<lparr>getenv_calls := getenv_calls p @ [''INFLUX_URL'', ''INFLUX_ORG'', ''INFLUX_BUCKET'']\<rparr>"
  obtain r q where w: "write_each (printed_texts (environ p)) ?p3 = (r, q)"
    by (cases "write_each (printed_texts (environ p)) ?p3")
  from write_each_frame [OF w] have "getenv_calls q = getenv_calls ?p3" by simp
  with w show ?thesis by (cases r) (simp_all add: main_write_each)
qed

lemma main_ok_iff:
  "fst (main p) = Inr PyNone \<longleftrightarrow>
     list_all (\<lambda>t. stdout_encoder p t \<noteq> None) (printed_texts (environ p))"
proof -
  let ?p3 = "p\<lparr>getenv_calls := getenv_calls p @ [''INFLUX_URL'', ''INFLUX_ORG'', ''INFLUX_BUCKET'']\<rparr>"
  have "fst (main p) = Inr PyNone \<longleftrightarrow> fst (write_each (printed_texts (environ p)) ?p3) = Inr ()"
    by (simp add: main_write_each split: prod.splits sum.splits)
  also have "\<dots> \<longleftrightarrow> list_all (\<lambda>t. stdout_encoder ?p3 t \<noteq> None) (printed_texts (environ p))"
    by (rule write_each_ok_iff)
  finally show ?thesis by simp
qed



lemma encode_ascii_literal:
  "list_all (\<lambda>c. (of_char c :: nat) < 128) s \<Longrightarrow> encode_with ascii_char h (ustr s) = Some s"
  by (induction s) (auto simp: ustr_def ascii_char_def)

lemma encode_utf8_literal:
  "list_all (\<lambda>c. (of_char c :: nat) < 128) s \<Longrightarrow> encode_with utf8_char h (ustr s) = Some s"
  by (induction s) (auto simp: ustr_def utf8_char_def)




lemma sys_stdout_ascii_strict:
  "env ''PYTHONIOENCODING'' = Some (ustr ''ascii:strict'') \<Longrightarrow>
   sys_stdout utf8_locale env = Some (encode_with ascii_char Strict)"
  by (simp add: sys_stdout_def utf8_locale_def)



text \<open>
  Claim C1, as amended. The specification says that the program reads the whole list of
  recognized options from the environment. The code reads three variables and no other:
  for every process state, \<^verbatim>\<open>main\<close> calls \<^verbatim>\<open>os.getenv\<close> exactly three times, for
  \<^verbatim>\<open>INFLUX_URL\<close>, \<^verbatim>\<open>INFLUX_ORG\<close> and \<^verbatim>\<open>INFLUX_BUCKET\<close> in this order (also when a
  \<^verbatim>\<open>print\<close> raises afterwards), so the options read are the store's connection URL,
  organization and bucket, and none of the queue, threshold, retention or batching
  options.
\<close>

theorem main_reads_three_influx_variables:
  "getenv_calls (snd (main p)) =
     getenv_calls p @ [''INFLUX_URL'', ''INFLUX_ORG'', ''INFLUX_BUCKET'']
   \<and> options_read (snd (main (start env enc))) = [StoreUrl, StoreOrg, StoreBucket]"
  by (simp add: main_getenv_calls options_read_def start_def List.map_filter_simps
      option_of_variable_def)

text \<open>
  Claim C1 as the specification states it fails: started in the empty environment,
  \<^verbatim>\<open>main\<close> asks for three variables, while the specification lists twelve options;
  the queue's connection target, for one, is never read.
\<close>

theorem main_reads_all_options_counterexample:
  "getenv_calls (snd (main (start Map.empty (encode_with utf8_char Strict))))
     = [''INFLUX_URL'', ''INFLUX_ORG'', ''INFLUX_BUCKET'']
   \<and> length spec_recognized_options = 12
   \<and> QueueTarget \<notin> set (options_read (snd (main (start Map.empty (encode_with utf8_char Strict)))))
   \<and> \<not> set spec_recognized_options
         \<subseteq> set (options_read (snd (main (start Map.empty (encode_with utf8_char Strict)))))"
  by (simp add: main_getenv_calls options_read_def start_def List.map_filter_simps
      option_of_variable_def spec_recognized_options_def)




text \<open>
  Claim C3, as amended. The specification says that no exception leaves \<^verbatim>\<open>main\<close>
  in any environment. The code has no \<^verbatim>\<open>try\<close>: from every process state, \<^verbatim>\<open>main\<close>
  returns \<^verbatim>\<open>None\<close> normally exactly when standard output encodes every text the two
  \<^verbatim>\<open>print\<close> calls write; otherwise \<^verbatim>\<open>UnicodeEncodeError\<close> leaves it. With
  \<^verbatim>\<open>INFLUX_URL\<close>, \<^verbatim>\<open>INFLUX_ORG\<close> and \<^verbatim>\<open>INFLUX_BUCKET\<close> all unset the texts are ASCII and
  \<^verbatim>\<open>main\<close> returns normally under an ASCII or UTF-8 encoder.
\<close>

theorem main_returns_normally_iff_encodable:
  "fst (main p) = Inr PyNone \<longleftrightarrow>
     list_all (\<lambda>t. stdout_encoder p t \<noteq> None) (printed_texts (environ p))"
  by (rule main_ok_iff)

theorem main_returns_normally_iff_encodable_witness:
  "list_all (\<lambda>t. stdout_encoder (start Map.empty (encode_with ascii_char Strict)) t \<noteq> None)
     (printed_texts (environ (start Map.empty (encode_with ascii_char Strict))))
   \<and> fst (main (start Map.empty (encode_with ascii_char Strict))) = Inr PyNone
   \<and> stdout (snd (main (start Map.empty (encode_with ascii_char Strict)))) =
       ''okex-buddy bytewax analysis flow (M1 skeleton)'' @ [CHR 0x0A]
       @ ''Influx: None None None'' @ [CHR 0x0A]
   \<and> fst (main (start Map.empty (encode_with utf8_char Strict))) = Inr PyNone"
proof -
  let ?p = "start Map.empty (encode_with ascii_char Strict)"
  let ?q = "start Map.empty (encode_with utf8_char Strict)"
  have l: "list_all (\<lambda>t. stdout_encoder ?p t \<noteq> None) (printed_texts (environ ?p))"
    by (simp add: start_def printed_texts_def environ_get_def encode_ascii_literal)
  have l': "list_all (\<lambda>t. stdout_encoder ?q t \<noteq> None) (printed_texts (environ ?q))"
    by (simp add: start_def printed_texts_def environ_get_def encode_utf8_literal)
  have out: "stdout (snd (main ?p)) =
       ''okex-buddy bytewax analysis flow (M1 skeleton)'' @ [CHR 0x0A]
       @ ''Influx: None None None'' @ [CHR 0x0A]"
    by (simp add: main_write_each start_def printed_texts_def environ_get_def
        sys_stdout_write_def encode_ascii_literal)
  from main_returns_normally_iff_encodable [of ?p] main_returns_normally_iff_encodable [of ?q]
    l l' out
  show ?thesis by blast
qed

text \<open>
  Claim C3 as the specification states it fails: with \<^verbatim>\<open>PYTHONIOENCODING=ascii:strict\<close>
  and the one character \<^verbatim>\<open>U+00E9\<close> as \<^verbatim>\<open>INFLUX_URL\<close>, the second \<^verbatim>\<open>print\<close> raises
  \<^verbatim>\<open>UnicodeEncodeError\<close> out of \<^verbatim>\<open>main\<close> after the text \<^verbatim>\<open>Influx:\<close> and a space, and the
  exit status is 1.
\<close>

theorem main_raises_counterexample:
  "sys_stdout utf8_locale
      [''INFLUX_URL'' \<mapsto> [233], ''PYTHONIOENCODING'' \<mapsto> ustr ''ascii:strict'']
     = Some (encode_with ascii_char Strict)
   \<and> fst (main (start [''INFLUX_URL'' \<mapsto> [233], ''PYTHONIOENCODING'' \<mapsto> ustr ''ascii:strict'']
        (encode_with ascii_char Strict)))
     = Inl (UnicodeEncodeError [233])
   \<and> run_module utf8_locale
        [''INFLUX_URL'' \<mapsto> [233], ''PYTHONIOENCODING'' \<mapsto> ustr ''ascii:strict'']
     = Some (1, ''okex-buddy bytewax analysis flow (M1 skeleton)'' @ [CHR 0x0A] @ ''Influx: '')"
proof -
  let ?e = "[''INFLUX_URL'' \<mapsto> [233], ''PYTHONIOENCODING'' \<mapsto> ustr ''ascii:strict'']"
  have s: "sys_stdout utf8_locale ?e = Some (encode_with ascii_char Strict)"
    by (rule sys_stdout_ascii_strict) simp
  have m: "main (start ?e (encode_with ascii_char Strict)) =
      (Inl (UnicodeEncodeError [233]),
       \<lparr>environ = ?e, getenv_calls = [''INFLUX_URL'', ''INFLUX_ORG'', ''INFLUX_BUCKET''],
        stdout_encoder = encode_with ascii_char Strict,
        stdout = ''okex-buddy bytewax analysis flow (M1 skeleton)'' @ [CHR 0x0A] @ ''Influx: ''\<rparr>)"
    by (simp add: main_write_each start_def printed_texts_def environ_get_def
        sys_stdout_write_def encode_ascii_literal ascii_char_def)
  from s m show ?thesis by (simp add: run_module_def)
qed




section \<open>Properties of the symbol window\<close>

lemma dropWhile_sorted_ge:
  "sorted (map f xs) \<Longrightarrow> x \<in> set (dropWhile (\<lambda>y. f y < (c::int)) xs) \<Longrightarrow> c \<le> f x"
  by (induction xs) (auto split: if_splits)

lemma sorted_dropWhile_map:
  "sorted (map f xs) \<Longrightarrow> sorted (map (f :: 'a \<Rightarrow> int) (dropWhile P xs))"
  by (induction xs) auto

lemma sorted_map_le_last:
  "sorted (map f xs) \<Longrightarrow> x \<in> set xs \<Longrightarrow> (f x :: int) \<le> f (last xs)"
  by (induction xs) auto

lemma in_order_sorted_snoc:
  assumes "sorted (map timestamp (snapshots w))" and "in_order w s"
  shows "sorted (map timestamp (snapshots w @ [s]))"
proof (cases "snapshots w")
  case Nil then show ?thesis by simp
next
  case (Cons a as)
  with assms(2) have le: "timestamp (last (snapshots w)) \<le> timestamp s"
    by (simp add: in_order_def)
  have "\<forall>x\<in>set (snapshots w). timestamp x \<le> timestamp (last (snapshots w))"
    using assms(1) by (simp add: sorted_map_le_last)
  with le assms(1) show ?thesis by (auto simp: sorted_append)
qed

lemma insert_sorted:
  assumes "sorted (map timestamp (snapshots w))"
  shows "sorted (map timestamp (snapshots (insert_snapshot h s w)))"
proof (cases "in_order w s")
  case True
  from in_order_sorted_snoc [OF assms True] True show ?thesis
    by (simp add: insert_snapshot_def classify_def evict_def sorted_dropWhile_map)
next
  case False
  with assms show ?thesis by (simp add: insert_snapshot_def classify_def)
qed

lemma snapshots_insert_rejected:
  "\<not> in_order w s \<Longrightarrow> snapshots (insert_snapshot h s w) = snapshots w"
  by (simp add: insert_snapshot_def classify_def)

lemma snapshots_insert_appended:
  "in_order w s \<Longrightarrow>
   snapshots (insert_snapshot h s w) =
     dropWhile (\<lambda>x. timestamp x < timestamp s - h) (snapshots w @ [s])"
  by (simp add: insert_snapshot_def classify_def evict_def)

lemma accepted_Nil_snapshots:
  "accepted h ss w = [] \<Longrightarrow> snapshots (inserts h ss w) = snapshots w"
proof (induction ss arbitrary: w)
  case Nil then show ?case by simp
next
  case (Cons s ss)
  from Cons.prems have rej: "\<not> in_order w s" and rest: "accepted h ss (insert_snapshot h s w) = []"
    by (auto split: if_splits)
  from Cons.IH [OF rest] rej show ?case by (simp add: snapshots_insert_rejected)
qed

lemma retention_from_sorted:
  assumes "sorted (map timestamp (snapshots w))"
    and "accepted h xs w \<noteq> []"
    and "x \<in> set (snapshots (inserts h xs w))"
  shows "timestamp (last (accepted h xs w)) - h \<le> timestamp x"
  using assms
proof (induction xs arbitrary: w)
  case Nil then show ?case by simp
next
  case (Cons s ss)
  let ?w' = "insert_snapshot h s w"
  have sorted': "sorted (map timestamp (snapshots ?w'))"
    using Cons.prems(1) by (rule insert_sorted)
  show ?case
  proof (cases "accepted h ss ?w' = []")
    case False
    then have "last (accepted h (s # ss) w) = last (accepted h ss ?w')" by simp
    moreover have "timestamp (last (accepted h ss ?w')) - h \<le> timestamp x"
      using Cons.IH [OF sorted' False] Cons.prems(3) by simp
    ultimately show ?thesis by simp
  next
    case True
    with Cons.prems(2) have io: "in_order w s" by (auto split: if_splits)
    with True have l: "last (accepted h (s # ss) w) = s" by simp
    have "snapshots (inserts h (s # ss) w) = snapshots ?w'"
      using accepted_Nil_snapshots [OF True] by simp
    with Cons.prems(3) io
    have "x \<in> set (dropWhile (\<lambda>y. timestamp y < timestamp s - h) (snapshots w @ [s]))"
      by (simp add: snapshots_insert_appended)
    with in_order_sorted_snoc [OF Cons.prems(1) io]
    have "timestamp s - h \<le> timestamp x" by (rule dropWhile_sorted_ge)
    with l show ?thesis by simp
  qed
qed

lemma dropWhile_dropWhile_append:
  "(\<And>x. P x \<Longrightarrow> Q x) \<Longrightarrow>
   dropWhile Q (dropWhile P xs @ ys) = dropWhile Q (xs @ ys)"
  by (induction xs) auto

lemma filter_after_timestamp:
  "x \<in> set (filter_after p ss) \<Longrightarrow> timestamp p \<le> timestamp x"
proof (induction ss arbitrary: p)
  case Nil then show ?case by simp
next
  case (Cons s ss)
  then show ?case by (fastforce split: if_splits)
qed

lemma dropWhile_snoc_keep:
  "\<not> P s \<Longrightarrow> dropWhile P (xs @ [s]) \<noteq> [] \<and> last (dropWhile P (xs @ [s])) = s"
  by (induction xs) auto

lemma inserts_after:
  assumes "0 \<le> h" and "snapshots w \<noteq> []" and "last (snapshots w) = p"
    and "last_sequence w = Some (sequence p)"
  shows "snapshots (inserts h ss w) =
      (case filter_after p ss of [] \<Rightarrow> snapshots w
       | _ # _ \<Rightarrow> dropWhile (\<lambda>x. timestamp x < timestamp (last (filter_after p ss)) - h)
             (snapshots w @ filter_after p ss))
    \<and> accepted h ss w = filter_after p ss"
  using assms
proof (induction ss arbitrary: w p)
  case Nil then show ?case by simp
next
  case (Cons s ss)
  let ?w' = "insert_snapshot h s w"
  have io_iff: "in_order w s \<longleftrightarrow> sequence p < sequence s \<and> timestamp p \<le> timestamp s"
    using Cons.prems by (cases "snapshots w") (auto simp: in_order_def)
  show ?case
  proof (cases "in_order w s")
    case False
    then have "snapshots ?w' = snapshots w" "last_sequence ?w' = last_sequence w"
      by (auto simp: insert_snapshot_def classify_def)
    with Cons.prems have J: "snapshots ?w' \<noteq> []" "last (snapshots ?w') = p"
      "last_sequence ?w' = Some (sequence p)" by simp_all
    have fa: "filter_after p (s # ss) = filter_after p ss"
      using False io_iff by auto
    have acc: "accepted h (s # ss) w = accepted h ss ?w'"
      using False by simp
    have ins: "inserts h (s # ss) w = inserts h ss ?w'" by simp
    from Cons.IH [OF Cons.prems(1) J] \<open>snapshots ?w' = snapshots w\<close>
    show ?thesis unfolding fa acc ins by (simp split: list.splits)
  next
    case True
    let ?P = "\<lambda>x. timestamp x < timestamp s - h"
    have snaps: "snapshots ?w' = dropWhile ?P (snapshots w @ [s])"
      using True by (rule snapshots_insert_appended)
    have notP: "\<not> ?P s" using Cons.prems(1) by simp
    from dropWhile_snoc_keep [of ?P s "snapshots w", OF notP] snaps
    have J: "snapshots ?w' \<noteq> []" "last (snapshots ?w') = s" by simp_all
    have J3: "last_sequence ?w' = Some (sequence s)"
      using True by (simp add: insert_snapshot_def classify_def)
    note IH = Cons.IH [OF Cons.prems(1) J J3]
    have fa: "filter_after p (s # ss) = s # filter_after s ss"
      using True io_iff by simp
    have acc: "accepted h (s # ss) w = s # filter_after s ss"
      using True IH by simp
    show ?thesis
    proof (cases "filter_after s ss")
      case Nil
      with IH snaps fa acc show ?thesis by simp
    next
      case (Cons a as)
      let ?l = "last (filter_after s ss)"
      let ?Q = "\<lambda>x. timestamp x < timestamp ?l - h"
      have "?l \<in> set (filter_after s ss)" using Cons by simp
      then have "timestamp s \<le> timestamp ?l" by (rule filter_after_timestamp)
      then have imp: "\<And>x. ?P x \<Longrightarrow> ?Q x" by simp
      have "snapshots (inserts h ss ?w') = dropWhile ?Q (snapshots ?w' @ filter_after s ss)"
        using IH Cons by simp
      also have "\<dots> = dropWhile ?Q ((snapshots w @ [s]) @ filter_after s ss)"
        unfolding snaps using imp by (rule dropWhile_dropWhile_append)
      finally have "snapshots (inserts h (s # ss) w) =
          dropWhile ?Q (snapshots w @ s # filter_after s ss)" by simp
      with fa acc Cons show ?thesis by simp
    qed
  qed
qed

lemma inserts_new_window:
  assumes "0 \<le> h"
  shows "snapshots (inserts h xs (new_window name)) = retained h (filtered_subsequence xs)
    \<and> accepted h xs (new_window name) = filtered_subsequence xs"
proof (cases xs)
  case Nil then show ?thesis by (simp add: retained_def new_window_def)
next
  case (Cons s ss)
  let ?w0 = "new_window name"
  let ?w' = "insert_snapshot h s ?w0"
  have io: "in_order ?w0 s" by (simp add: in_order_def new_window_def)
  have snaps: "snapshots ?w' = [s]"
    using assms by (simp add: snapshots_insert_appended [OF io]) (simp add: new_window_def)
  have ls: "last_sequence ?w' = Some (sequence s)"
    using io by (simp add: insert_snapshot_def classify_def)
  have J: "snapshots ?w' \<noteq> []" "last (snapshots ?w') = s" using snaps by simp_all
  note A = inserts_after [OF assms J ls, of ss]
  show ?thesis
  proof (cases "filter_after s ss")
    case Nil
    with A snaps io Cons assms show ?thesis by (simp add: retained_def)
  next
    case (Cons a as)
    with A snaps io \<open>xs = s # ss\<close> show ?thesis
      by (simp add: retained_def)
  qed
qed

lemma counters_inserts:
  "sequence_gaps (inserts h xs w) + duplicate_snapshots (inserts h xs w) + length (accepted h xs w)
     = sequence_gaps w + duplicate_snapshots w + length xs"
proof (induction xs arbitrary: w)
  case Nil then show ?case by simp
next
  case (Cons s ss)
  have "sequence_gaps (insert_snapshot h s w) + duplicate_snapshots (insert_snapshot h s w)
        = sequence_gaps w + duplicate_snapshots w + (if in_order w s then 0 else 1)"
    by (simp add: insert_snapshot_def classify_def)
  with Cons.IH [of "insert_snapshot h s w"] show ?case by simp
qed

text \<open>
  Claim C4, as amended. For every retention horizon \<open>h \<ge> 0\<close> and every sequence of
  snapshots delivered to a fresh window in increasing sequence number, the stored contents
  after all inserts are the filtered subsequence of the input (strictly increasing
  sequence, non-decreasing timestamp) without its entries older than the horizon relative
  to its last timestamp, which eviction has removed. Every other snapshot of the input
  was rejected and counted, as a sequence gap or a duplicate; insert is total and raises
  nothing.
\<close>

theorem window_stores_retained_filtered_subsequence:
  assumes "0 \<le> h" and "sorted_wrt (<) (map sequence xs)"
  shows "snapshots (inserts h xs (new_window name)) = retained h (filtered_subsequence xs)
    \<and> sequence_gaps (inserts h xs (new_window name))
        + duplicate_snapshots (inserts h xs (new_window name))
        + length (filtered_subsequence xs) = length xs"
proof -
  from inserts_new_window [OF assms(1), of xs name]
  have snaps: "snapshots (inserts h xs (new_window name)) = retained h (filtered_subsequence xs)"
    and acc: "accepted h xs (new_window name) = filtered_subsequence xs" by simp_all
  from counters_inserts [of h xs "new_window name"] acc
  have "sequence_gaps (inserts h xs (new_window name))
        + duplicate_snapshots (inserts h xs (new_window name))
        + length (filtered_subsequence xs) = length xs"
    by (simp add: new_window_def)
  with snaps show ?thesis by simp
qed

theorem window_stores_retained_filtered_subsequence_witness:
  "(0::int) \<le> 60
   \<and> sorted_wrt (<) (map sequence
        [example_snapshot 1 0, example_snapshot 2 50, example_snapshot 3 40,
         example_snapshot 4 90, example_snapshot 5 100])
   \<and> snapshots (inserts 60
        [example_snapshot 1 0, example_snapshot 2 50, example_snapshot 3 40,
         example_snapshot 4 90, example_snapshot 5 100] (new_window ''BTC-USDT''))
      = [example_snapshot 2 50, example_snapshot 4 90, example_snapshot 5 100]
   \<and> sequence_gaps (inserts 60
        [example_snapshot 1 0, example_snapshot 2 50, example_snapshot 3 40,
         example_snapshot 4 90, example_snapshot 5 100] (new_window ''BTC-USDT''))
      + duplicate_snapshots (inserts 60
        [example_snapshot 1 0, example_snapshot 2 50, example_snapshot 3 40,
         example_snapshot 4 90, example_snapshot 5 100] (new_window ''BTC-USDT''))
      = 1"
proof -
  let ?xs = "[example_snapshot 1 0, example_snapshot 2 50, example_snapshot 3 40,
         example_snapshot 4 90, example_snapshot 5 100]"
  have h: "(0::int) \<le> 60" by simp
  have inc: "sorted_wrt (<) (map sequence ?xs)" by (simp add: example_snapshot_def)
  have f: "filtered_subsequence ?xs =
      [example_snapshot 1 0, example_snapshot 2 50, example_snapshot 4 90, example_snapshot 5 100]"
    by (simp add: example_snapshot_def)
  have r: "retained 60 (filtered_subsequence ?xs) =
      [example_snapshot 2 50, example_snapshot 4 90, example_snapshot 5 100]"
    unfolding f by (simp add: retained_def example_snapshot_def)
  from window_stores_retained_filtered_subsequence [OF h inc, of "''BTC-USDT''"] r f h inc
  show ?thesis by simp
qed

text \<open>
  Claim C4 as the specification states it fails: with a retention horizon of 10, two
  snapshots in increasing sequence at timestamps 0 and 100 are both in the filtered
  subsequence, but after the second insert the window stores the second one only.
\<close>

theorem window_stores_filtered_subsequence_counterexample:
  "sorted_wrt (<) (map sequence [example_snapshot 1 0, example_snapshot 2 100])
   \<and> filtered_subsequence [example_snapshot 1 0, example_snapshot 2 100]
       = [example_snapshot 1 0, example_snapshot 2 100]
   \<and> snapshots (inserts 10 [example_snapshot 1 0, example_snapshot 2 100]
         (new_window ''BTC-USDT''))
       = [example_snapshot 2 100]
   \<and> snapshots (inserts 10 [example_snapshot 1 0, example_snapshot 2 100]
         (new_window ''BTC-USDT''))
       \<noteq> filtered_subsequence [example_snapshot 1 0, example_snapshot 2 100]"
  by (simp add: example_snapshot_def insert_snapshot_def classify_def in_order_def
      evict_def new_window_def)

text \<open>
  Claim C5. After any sequence of inserts into a fresh window, no stored snapshot is older
  than the retention horizon relative to the latest inserted timestamp, the timestamp of
  the last snapshot that insert appended: eviction follows the event time of the data.
  This holds for every input, so also for one that spans more than the horizon.
\<close>

theorem window_retention:
  assumes "accepted h xs (new_window name) \<noteq> []"
    and "x \<in> set (snapshots (inserts h xs (new_window name)))"
  shows "timestamp (last (accepted h xs (new_window name))) - h \<le> timestamp x"
proof -
  have "sorted (map timestamp (snapshots (new_window name)))"
    by (simp add: new_window_def)
  from retention_from_sorted [OF this assms] show ?thesis .
qed

theorem window_retention_witness:
  "accepted 60 [example_snapshot 1 0, example_snapshot 2 50, example_snapshot 3 90,
       example_snapshot 4 100] (new_window ''BTC-USDT'') \<noteq> []
   \<and> example_snapshot 2 50 \<in> set (snapshots (inserts 60
       [example_snapshot 1 0, example_snapshot 2 50, example_snapshot 3 90,
        example_snapshot 4 100] (new_window ''BTC-USDT'')))
   \<and> example_snapshot 1 0 \<notin> set (snapshots (inserts 60
       [example_snapshot 1 0, example_snapshot 2 50, example_snapshot 3 90,
        example_snapshot 4 100] (new_window ''BTC-USDT'')))
   \<and> timestamp (last (accepted 60 [example_snapshot 1 0, example_snapshot 2 50,
       example_snapshot 3 90, example_snapshot 4 100] (new_window ''BTC-USDT''))) = 100
   \<and> timestamp (last (accepted 60 [example_snapshot 1 0, example_snapshot 2 50,
       example_snapshot 3 90, example_snapshot 4 100] (new_window ''BTC-USDT''))) - 60
       \<le> timestamp (example_snapshot 2 50)"
proof -
  let ?xs = "[example_snapshot 1 0, example_snapshot 2 50, example_snapshot 3 90,
       example_snapshot 4 100]"
  let ?w0 = "new_window ''BTC-USDT''"
  have acc: "accepted 60 ?xs ?w0 = ?xs"
    by (simp add: example_snapshot_def insert_snapshot_def classify_def in_order_def
        evict_def new_window_def)
  have snaps: "snapshots (inserts 60 ?xs ?w0) =
      [example_snapshot 2 50, example_snapshot 3 90, example_snapshot 4 100]"
    by (simp add: example_snapshot_def insert_snapshot_def classify_def in_order_def
        evict_def new_window_def)
  have ne: "accepted 60 ?xs ?w0 \<noteq> []" unfolding acc by simp
  have mem: "example_snapshot 2 50 \<in> set (snapshots (inserts 60 ?xs ?w0))"
    unfolding snaps by simp
  have out: "example_snapshot 1 0 \<notin> set (snapshots (inserts 60 ?xs ?w0))"
    unfolding snaps by (simp add: example_snapshot_def)
  have l: "timestamp (last (accepted 60 ?xs ?w0)) = 100"
    unfolding acc by (simp add: example_snapshot_def)
  from window_retention [OF ne mem] ne mem out l show ?thesis by blast
qed

end
